theory Spec2Isabelle
  imports Main
begin

section \<open>The rate limiter of Kronos.py\<close>

text \<open>
  The development embeds class \<open>RateLimiter\<close> of \<open>src/Kronos.py\<close>: its constructor
  and its only method \<open>acquire\<close>.

  Instants (\<open>datetime\<close>) and durations (\<open>timedelta\<close>) are whole numbers of
  microseconds, the resolution of both Python types; their arithmetic and comparisons
  are exact integer operations. The bounded range of the two types (years 1 to 9999,
  at most 999999999 days) is not modelled, and neither is the conversion of a duration
  to a floating-point number of seconds by \<open>total_seconds\<close>: a wait is kept in
  microseconds, and its sign is the sign of the float.

  The lock makes the body of \<open>acquire\<close> atomic, so a call is one function from the
  state before it to the state after it, and concurrent callers are a sequence of calls.
\<close>

subsection \<open>Errors, the environment\<close>

text \<open>
  \<open>IndexError\<close> is what Python raises for a list read or a \<open>pop\<close> out of range.
  \<open>InvalidConfiguration\<close> is the error the specification names for the constructor;
  no path of the source raises it.
\<close>

datatype py_error = IndexError | InvalidConfiguration

text \<open>
  What a call does to its environment: a call of the logger (the message is kept as its
  arguments, not formatted) or a \<open>time.sleep\<close>. Durations are in microseconds.
\<close>

datatype event =
    LogInfo int int   \<comment> \<open>\<open>logger.info\<close>: initialised with limit, time period\<close>
  | LogDebug int      \<comment> \<open>\<open>logger.debug\<close>: triggered for a wait\<close>
  | Sleep int         \<comment> \<open>\<open>time.sleep\<close> of a wait\<close>

record world =
  clock :: int            \<comment> \<open>what \<open>datetime.now()\<close> returns, in microseconds\<close>
  trace :: "event list"   \<comment> \<open>the events so far, oldest first\<close>

definition info :: "int \<Rightarrow> int \<Rightarrow> world \<Rightarrow> world" where
  "info l p w = w\<lparr>trace := trace w @ [LogInfo l p]\<rparr>"

definition debug :: "int \<Rightarrow> world \<Rightarrow> world" where
  "debug d w = w\<lparr>trace := trace w @ [LogDebug d]\<rparr>"

text \<open>Sleeping suspends the caller for the duration asked: the clock moves on by it.\<close>

definition sleep :: "int \<Rightarrow> world \<Rightarrow> world" where
  "sleep d w = w\<lparr>clock := clock w + d, trace := trace w @ [Sleep d]\<rparr>"

text \<open>\<open>timedelta(seconds=n)\<close> for an integer \<open>n\<close>.\<close>

definition timedelta_seconds :: "int \<Rightarrow> int" where
  "timedelta_seconds n = n * 1000000"

subsection \<open>Python list operations that can raise\<close>

definition getitem :: "'a list \<Rightarrow> nat \<Rightarrow> py_error + 'a" where
  "getitem xs i = (if i < length xs then Inr (xs ! i) else Inl IndexError)"

text \<open>\<open>xs.pop(i)\<close> for \<open>i \<ge> 0\<close>; the element removed is not used by the source.\<close>

definition pop :: "'a list \<Rightarrow> nat \<Rightarrow> py_error + 'a list" where
  "pop xs i = (if i < length xs then Inr (take i xs @ drop (Suc i) xs) else Inl IndexError)"

subsection \<open>The limiter\<close>

record RateLimiter =
  limit :: int
  time_period :: int
  multiprocessing_mode :: bool   \<comment> \<open>the ledger is a \<open>manager.list()\<close>, not a \<open>list\<close>\<close>
  timestamps :: "int list"

text \<open>
  \<open>__init__\<close> stores its arguments as they are, starts with an empty ledger, and logs
  one line. There is no check of the arguments.
\<close>

definition RateLimiter_init ::
    "int \<Rightarrow> int \<Rightarrow> bool \<Rightarrow> world \<Rightarrow> py_error + (RateLimiter \<times> world)" where
  "RateLimiter_init l p mp w =
     Inr (\<lparr>limit = l, time_period = p, multiprocessing_mode = mp, timestamps = []\<rparr>,
          info l p w)"

subsection \<open>Pruning\<close>

text \<open>Threading mode: the list comprehension of line 335.\<close>

definition prune_list :: "int \<Rightarrow> int \<Rightarrow> int list \<Rightarrow> int list" where
  "prune_list now p xs = [ts \<leftarrow> xs. now - ts < timedelta_seconds p]"

text \<open>
  Multiprocessing mode, lines 338 to 345: the first loop collects the indices of the
  expired entries, the second pops them, greatest index first.
\<close>

definition expired_indices :: "int \<Rightarrow> int \<Rightarrow> int list \<Rightarrow> nat list" where
  "expired_indices now p xs =
     map fst (filter (\<lambda>(i, ts). now - ts \<ge> timedelta_seconds p) (enumerate 0 xs))"

fun pop_all :: "nat list \<Rightarrow> 'a list \<Rightarrow> py_error + 'a list" where
  "pop_all [] xs = Inr xs"
| "pop_all (i # is) xs = (case pop xs i of Inl e \<Rightarrow> Inl e | Inr xs' \<Rightarrow> pop_all is xs')"

definition prune_manager :: "int \<Rightarrow> int \<Rightarrow> int list \<Rightarrow> py_error + int list" where
  "prune_manager now p xs = pop_all (rev (sort (expired_indices now p xs))) xs"

definition prune :: "RateLimiter \<Rightarrow> int \<Rightarrow> py_error + RateLimiter" where
  "prune s now =
     (if \<not> multiprocessing_mode s
      then Inr (s\<lparr>timestamps := prune_list now (time_period s) (timestamps s)\<rparr>)
      else (case prune_manager now (time_period s) (timestamps s) of
              Inl e \<Rightarrow> Inl e
            | Inr xs \<Rightarrow> Inr (s\<lparr>timestamps := xs\<rparr>)))"

subsection \<open>Admission\<close>

text \<open>Line 348: the ledger has reached the limit.\<close>

definition reached_limit :: "RateLimiter \<Rightarrow> bool" where
  "reached_limit s = (int (length (timestamps s)) \<ge> limit s)"

text \<open>Line 351: how long until \<open>oldest\<close> leaves the window, in microseconds.\<close>

definition wait_time :: "int \<Rightarrow> int \<Rightarrow> int \<Rightarrow> int" where
  "wait_time oldest p now = oldest + timedelta_seconds p - now"

text \<open>Lines 348 to 354, on the pruned ledger: wait until the first entry leaves the window.\<close>

definition wait_if_full :: "RateLimiter \<Rightarrow> int \<Rightarrow> world \<Rightarrow> py_error + world" where
  "wait_if_full s now w =
     (if reached_limit s then
        if length (timestamps s) > 0 then
          (case getitem (timestamps s) 0 of
             Inl e \<Rightarrow> Inl e
           | Inr oldest \<Rightarrow>
               let wt = wait_time oldest (time_period s) now
               in if wt > 0 then Inr (sleep wt (debug wt w)) else Inr w)
        else Inr w
      else Inr w)"

text \<open>
  \<open>acquire\<close>: read the clock, prune, wait if the ledger is full, append the instant
  read at the start.
\<close>

definition acquire :: "RateLimiter \<Rightarrow> world \<Rightarrow> py_error + (RateLimiter \<times> world)" where
  "acquire s w =
     (let now = clock w in
      case prune s now of
        Inl e \<Rightarrow> Inl e
      | Inr s1 \<Rightarrow>
          (case wait_if_full s1 now w of
             Inl e \<Rightarrow> Inl e
           | Inr w1 \<Rightarrow> Inr (s1\<lparr>timestamps := timestamps s1 @ [now]\<rparr>, w1)))"

subsection \<open>Sequences of calls\<close>

text \<open>
  Between two calls time passes: \<open>tick d\<close> moves the clock by \<open>d\<close> microseconds.
  \<open>run ds\<close> is one call of \<open>acquire\<close> after each delay of \<open>ds\<close>, in turn,
  stopping at the first error as the exception would.
\<close>

definition tick :: "int \<Rightarrow> world \<Rightarrow> world" where
  "tick d w = w\<lparr>clock := clock w + d\<rparr>"

fun run :: "int list \<Rightarrow> RateLimiter \<Rightarrow> world \<Rightarrow> py_error + (RateLimiter \<times> world)" where
  "run [] s w = Inr (s, w)"
| "run (d # ds) s w =
     (case acquire s (tick d w) of Inl e \<Rightarrow> Inl e | Inr (s', w') \<Rightarrow> run ds s' w')"

subsection \<open>Observations\<close>

text \<open>The time a world has spent in \<open>time.sleep\<close>, summed over its trace.\<close>

fun sleep_duration :: "event \<Rightarrow> int" where
  "sleep_duration (Sleep d) = d"
| "sleep_duration (LogInfo l p) = 0"
| "sleep_duration (LogDebug d) = 0"

definition slept :: "world \<Rightarrow> int" where
  "slept w = sum_list (map sleep_duration (trace w))"

text \<open>
  The number of entries of a ledger in the window of \<open>p\<close> seconds that starts at
  instant \<open>t\<close>.
\<close>

definition admissions_in_window :: "int \<Rightarrow> int \<Rightarrow> int list \<Rightarrow> nat" where
  "admissions_in_window p t xs = length [ts \<leftarrow> xs. t \<le> ts \<and> ts < t + timedelta_seconds p]"

section \<open>Pruning by index equals filtering\<close>

lemma expired_indices_snoc:
  "expired_indices now p (xs @ [x]) =
     expired_indices now p xs @ (if now - x \<ge> timedelta_seconds p then [length xs] else [])"
  by (simp add: expired_indices_def enumerate_append_eq)

lemma sorted_expired_indices: "sorted (expired_indices now p xs)"
proof -
  have "sorted (map fst (enumerate 0 xs))"
    by simp
  then show ?thesis
    unfolding expired_indices_def by (rule sorted_filter)
qed

lemma pop_last: "pop (xs @ y # ys) (length xs) = Inr (xs @ ys)"
  by (simp add: pop_def)

lemma pop_all_rev_expired:
  "pop_all (rev (expired_indices now p xs)) (xs @ ys) = Inr (prune_list now p xs @ ys)"
proof (induction xs arbitrary: ys rule: rev_induct)
  case Nil
  show ?case by (simp add: expired_indices_def prune_list_def)
next
  case (snoc x xs)
  show ?case
  proof (cases "now - x \<ge> timedelta_seconds p")
    case True
    then show ?thesis
      using snoc [of ys] by (simp add: expired_indices_snoc pop_last prune_list_def)
  next
    case False
    then show ?thesis
      using snoc [of "x # ys"] by (simp add: expired_indices_snoc prune_list_def)
  qed
qed

lemma prune_manager_eq: "prune_manager now p xs = Inr (prune_list now p xs)"
  using pop_all_rev_expired [of now p xs "[]"]
  by (simp add: prune_manager_def sorted_sort_id sorted_expired_indices)


section \<open>What a call does\<close>

lemma prune_eq:
  "prune s now = Inr (s\<lparr>timestamps := prune_list now (time_period s) (timestamps s)\<rparr>)"
  by (simp add: prune_def prune_manager_eq)

lemma wait_if_full_eq:
  "wait_if_full s now w =
     Inr (if reached_limit s \<and> timestamps s \<noteq> []
            \<and> 0 < wait_time (hd (timestamps s)) (time_period s) now
          then sleep (wait_time (hd (timestamps s)) (time_period s) now)
                 (debug (wait_time (hd (timestamps s)) (time_period s) now) w)
          else w)"
  by (cases "timestamps s") (simp_all add: wait_if_full_def getitem_def Let_def)

lemma acquire_eq:
  "acquire s w =
     (let s1 = s\<lparr>timestamps := prune_list (clock w) (time_period s) (timestamps s)\<rparr>;
          wt = wait_time (hd (timestamps s1)) (time_period s) (clock w)
      in Inr (s1\<lparr>timestamps := timestamps s1 @ [clock w]\<rparr>,
              if reached_limit s1 \<and> timestamps s1 \<noteq> [] \<and> 0 < wt
              then sleep wt (debug wt w) else w))"
  by (simp add: acquire_def prune_eq wait_if_full_eq Let_def)

lemma acquire_returns: "\<exists>s' w'. acquire s w = Inr (s', w')"
  by (simp add: acquire_eq Let_def)

lemma slept_sleep: "slept (sleep d w) = slept w + d"
  by (simp add: slept_def sleep_def)

lemma slept_debug: "slept (debug d w) = slept w"
  by (simp add: slept_def debug_def)

lemma clock_sleep: "clock (sleep d w) = clock w + d"
  by (simp add: sleep_def)

lemma clock_debug: "clock (debug d w) = clock w"
  by (simp add: debug_def)

lemma trace_sleep_debug: "trace (sleep d (debug d w)) = trace w @ [LogDebug d, Sleep d]"
  by (simp add: sleep_def debug_def)

lemma acquire_clock_slept:
  assumes "acquire s w = Inr (s', w')"
  shows "clock w' = clock w + (slept w' - slept w) \<and> slept w \<le> slept w'"
  using assms
  by (auto simp add: acquire_eq Let_def slept_sleep slept_debug clock_sleep clock_debug
      split: if_splits)

lemma sorted_hd_is_Min: "sorted xs \<Longrightarrow> xs \<noteq> [] \<Longrightarrow> hd xs = Min (set xs)"
  by (cases xs) (auto intro!: Min_eqI [symmetric])

lemma sorted_prune_list: "sorted xs \<Longrightarrow> sorted (prune_list now p xs)"
  unfolding prune_list_def using sorted_filter [of "\<lambda>x. x" xs] by simp

lemma acquire_keeps_order:
  assumes "sorted (timestamps s)" and "\<forall>ts \<in> set (timestamps s). ts \<le> clock w"
    and "acquire s w = Inr (s', w')"
  shows "sorted (timestamps s') \<and> (\<forall>ts \<in> set (timestamps s'). ts \<le> clock w')"
proof -
  let ?xs = "prune_list (clock w) (time_period s) (timestamps s)"
  have ledger: "timestamps s' = ?xs @ [clock w]"
    using assms(3) by (auto simp add: acquire_eq Let_def)
  have "set ?xs \<subseteq> set (timestamps s)"
    by (auto simp add: prune_list_def)
  then have below: "\<forall>ts \<in> set ?xs. ts \<le> clock w"
    using assms(2) by blast
  have "sorted ?xs"
    using assms(1) by (rule sorted_prune_list)
  then have srt: "sorted (timestamps s')"
    using below by (simp add: ledger sorted_append)
  have "clock w \<le> clock w'"
    using acquire_clock_slept [OF assms(3)] by simp
  then have "\<forall>ts \<in> set (timestamps s'). ts \<le> clock w'"
    using below by (auto simp add: ledger)
  with srt show ?thesis by simp
qed

lemmas eval_defs =
  acquire_eq tick_def prune_list_def timedelta_seconds_def wait_time_def reached_limit_def
  sleep_def debug_def info_def slept_def

section \<open>The claims\<close>

subsection \<open>C1: the admission bound\<close>

text \<open>
  C1 says that no window of \<open>time_period\<close> seconds ever holds more than \<open>limit\<close> of
  the timestamps recorded in the ledger, and that with \<open>limit = 1\<close> and a period of one
  second no two recorded timestamps are less than a second apart. The code does
  otherwise. A limiter is constructed with \<open>limit = 1\<close> and \<open>time_period = 1\<close> at
  instant 0; \<open>acquire\<close> is called at once and again 0.1 s later. The second call sleeps
  0.9 s and then records the instant it read before sleeping: the ledger is
  \<open>[0, 100000]\<close>, two admissions in the window that starts at 0. A third call, made as
  soon as the second returns at 1.0 s, sleeps only 0.1 s: it returns at 1.1 s, a tenth
  of a second after the second call did.
\<close>

theorem acquire_exceeds_limit:
  "(case RateLimiter_init 1 1 False \<lparr>clock = 0, trace = []\<rparr> of
      Inl e \<Rightarrow> Inl e | Inr (s, w) \<Rightarrow> run [0, 100000] s w) =
     Inr (\<lparr>limit = 1, time_period = 1, multiprocessing_mode = False,
            timestamps = [0, 100000]\<rparr>,
          \<lparr>clock = 1000000, trace = [LogInfo 1 1, LogDebug 900000, Sleep 900000]\<rparr>)
   \<and> admissions_in_window 1 0 [0, 100000] = 2
   \<and> (case RateLimiter_init 1 1 False \<lparr>clock = 0, trace = []\<rparr> of
        Inl e \<Rightarrow> Inl e | Inr (s, w) \<Rightarrow> run [0, 100000, 0] s w) =
       Inr (\<lparr>limit = 1, time_period = 1, multiprocessing_mode = False,
              timestamps = [100000, 1000000]\<rparr>,
            \<lparr>clock = 1100000,
               trace = [LogInfo 1 1, LogDebug 900000, Sleep 900000,
                        LogDebug 100000, Sleep 100000]\<rparr>)"
  by (simp add: RateLimiter_init_def admissions_in_window_def eval_defs)

subsection \<open>C2: construction\<close>

text \<open>
  C2, as amended: constructing a limiter with any \<open>limit\<close> and \<open>time_period\<close>, also
  with \<open>limit \<le> 0\<close> or \<open>time_period \<le> 0\<close>, raises no error. It returns a limiter
  that holds the two values as given (they are never clamped to a default) and an empty
  ledger, logs one line, and the limiter is usable: \<open>acquire\<close> on it returns.
\<close>

theorem RateLimiter_init_accepts_all:
  "\<exists>s w'. RateLimiter_init l p mp w = Inr (s, w')
      \<and> s = \<lparr>limit = l, time_period = p, multiprocessing_mode = mp, timestamps = []\<rparr>
      \<and> w' = w\<lparr>trace := trace w @ [LogInfo l p]\<rparr>
      \<and> acquire s w' = Inr (s\<lparr>timestamps := [clock w]\<rparr>, w')"
  by (simp add: RateLimiter_init_def info_def acquire_eq prune_list_def reached_limit_def)

text \<open>The amended claim at \<open>limit = -5\<close>, \<open>time_period = 0\<close>.\<close>

theorem RateLimiter_init_accepts_all_witness:
  "RateLimiter_init (-5) 0 True \<lparr>clock = 7, trace = []\<rparr> =
     Inr (\<lparr>limit = -5, time_period = 0, multiprocessing_mode = True, timestamps = []\<rparr>,
          \<lparr>clock = 7, trace = [LogInfo (-5) 0]\<rparr>)
   \<and> acquire \<lparr>limit = -5, time_period = 0, multiprocessing_mode = True, timestamps = []\<rparr>
             \<lparr>clock = 7, trace = [LogInfo (-5) 0]\<rparr> =
       Inr (\<lparr>limit = -5, time_period = 0, multiprocessing_mode = True, timestamps = [7]\<rparr>,
            \<lparr>clock = 7, trace = [LogInfo (-5) 0]\<rparr>)"
  using RateLimiter_init_accepts_all [of "-5" 0 True "\<lparr>clock = 7, trace = []\<rparr>"]
  by auto

text \<open>
  C2 as stated fails: with \<open>limit = 0\<close> the constructor returns a limiter, not the
  error \<open>InvalidConfiguration\<close>.
\<close>

theorem RateLimiter_init_zero_limit_counterexample:
  "RateLimiter_init 0 1 False \<lparr>clock = 0, trace = []\<rparr> =
     Inr (\<lparr>limit = 0, time_period = 1, multiprocessing_mode = False, timestamps = []\<rparr>,
          \<lparr>clock = 0, trace = [LogInfo 0 1]\<rparr>)
   \<and> RateLimiter_init 0 1 False \<lparr>clock = 0, trace = []\<rparr> \<noteq> Inl InvalidConfiguration"
  by (simp add: RateLimiter_init_def info_def)

subsection \<open>C3: the duration of the wait\<close>

text \<open>
  C3: when the pruned ledger of a call at \<open>clock w\<close> holds at least \<open>limit\<close> entries
  and its first entry is \<open>t0\<close>, the call sleeps for \<open>max 0 (t0 + time_period - now)\<close>,
  here in microseconds, before it records its timestamp: the wait is decided on the
  pruned ledger, \<open>time.sleep\<close> is called (after one debug line) only when the wait is
  strictly positive, and the clock has moved by the wait when the call returns. The
  first entry \<open>t0\<close> is the earliest one left whenever the ledger was in ascending order.
\<close>

theorem acquire_wait_duration:
  assumes "[ts \<leftarrow> timestamps s. clock w - ts < time_period s * 1000000] = t0 # rest"
    and "limit s \<le> int (length (t0 # rest))"
  shows "\<exists>w'. wait_if_full (s\<lparr>timestamps := t0 # rest\<rparr>) (clock w) w = Inr w'
           \<and> acquire s w = Inr (s\<lparr>timestamps := (t0 # rest) @ [clock w]\<rparr>, w')
           \<and> slept w' = slept w + max 0 (t0 + time_period s * 1000000 - clock w)
           \<and> clock w' = clock w + max 0 (t0 + time_period s * 1000000 - clock w)
           \<and> trace w' = trace w @
                (if 0 < t0 + time_period s * 1000000 - clock w
                 then [LogDebug (t0 + time_period s * 1000000 - clock w),
                       Sleep (t0 + time_period s * 1000000 - clock w)]
                 else [])
           \<and> (sorted (timestamps s) \<longrightarrow> t0 = Min (set (t0 # rest)))"
proof -
  let ?wt = "t0 + time_period s * 1000000 - clock w"
  let ?w' = "if 0 < ?wt then sleep ?wt (debug ?wt w) else w"
  have pruned: "prune_list (clock w) (time_period s) (timestamps s) = t0 # rest"
    using assms(1) by (simp add: prune_list_def timedelta_seconds_def)
  have full: "reached_limit (s\<lparr>timestamps := t0 # rest\<rparr>)"
    using assms(2) by (simp add: reached_limit_def)
  have wait: "wait_if_full (s\<lparr>timestamps := t0 # rest\<rparr>) (clock w) w = Inr ?w'"
    using full by (simp add: wait_if_full_eq wait_time_def timedelta_seconds_def)
  have acq: "acquire s w = Inr (s\<lparr>timestamps := (t0 # rest) @ [clock w]\<rparr>, ?w')"
    using full by (simp add: acquire_eq pruned wait_time_def timedelta_seconds_def Let_def)
  have sl: "slept ?w' = slept w + max 0 ?wt"
    by (simp add: slept_sleep slept_debug)
  have cl: "clock ?w' = clock w + max 0 ?wt"
    by (simp add: clock_sleep clock_debug)
  have tr: "trace ?w' = trace w @ (if 0 < ?wt then [LogDebug ?wt, Sleep ?wt] else [])"
    by (simp add: trace_sleep_debug)
  have mn: "sorted (timestamps s) \<longrightarrow> t0 = Min (set (t0 # rest))"
  proof
    assume "sorted (timestamps s)"
    then have "sorted (t0 # rest)"
      using sorted_prune_list [of "timestamps s" "clock w" "time_period s"] pruned by simp
    then show "t0 = Min (set (t0 # rest))"
      using sorted_hd_is_Min [of "t0 # rest"] by simp
  qed
  from wait acq sl cl tr mn show ?thesis by blast
qed

text \<open>
  The scenario of the specification: \<open>limit = 3\<close>, a period of 2 s, admissions at
  0, 0.1 and 0.2 s, and a fourth call at 0.3 s, which sleeps 1.7 s.
\<close>

theorem acquire_wait_duration_witness:
  "acquire \<lparr>limit = 3, time_period = 2, multiprocessing_mode = False,
            timestamps = [0, 100000, 200000]\<rparr> \<lparr>clock = 300000, trace = []\<rparr> =
     Inr (\<lparr>limit = 3, time_period = 2, multiprocessing_mode = False,
            timestamps = [0, 100000, 200000, 300000]\<rparr>,
          \<lparr>clock = 2000000, trace = [LogDebug 1700000, Sleep 1700000]\<rparr>)
   \<and> slept \<lparr>clock = 2000000, trace = [LogDebug 1700000, Sleep 1700000]\<rparr> = 1700000
   \<and> 0 = Min (set [0, 100000, 200000 :: int])"
proof -
  let ?s = "\<lparr>limit = 3, time_period = 2, multiprocessing_mode = False,
             timestamps = [0, 100000, 200000]\<rparr>"
  let ?w = "\<lparr>clock = 300000, trace = []\<rparr>"
  have h1: "[ts \<leftarrow> timestamps ?s. clock ?w - ts < time_period ?s * 1000000] =
              0 # [100000, 200000]"
    by simp
  have h2: "limit ?s \<le> int (length (0 # [100000, 200000 :: int]))"
    by simp
  obtain w' where r:
    "acquire ?s ?w = Inr (?s\<lparr>timestamps := (0 # [100000, 200000]) @ [clock ?w]\<rparr>, w')"
    "slept w' = slept ?w + max 0 (0 + time_period ?s * 1000000 - clock ?w)"
    "clock w' = clock ?w + max 0 (0 + time_period ?s * 1000000 - clock ?w)"
    "trace w' = trace ?w @
       (if 0 < 0 + time_period ?s * 1000000 - clock ?w
        then [LogDebug (0 + time_period ?s * 1000000 - clock ?w),
              Sleep (0 + time_period ?s * 1000000 - clock ?w)]
        else [])"
    "sorted (timestamps ?s) \<longrightarrow> 0 = Min (set (0 # [100000, 200000 :: int]))"
    using acquire_wait_duration [OF h1 h2] by blast
  have "w' = \<lparr>clock = 2000000, trace = [LogDebug 1700000, Sleep 1700000]\<rparr>"
    using r(3,4) by (cases w') simp
  with r show ?thesis
    by (simp add: slept_def)
qed

subsection \<open>C4: what pruning removes\<close>

text \<open>
  C4: in both modes the pruning step of a call at \<open>now\<close> succeeds and removes from the
  ledger exactly the entries \<open>ts\<close> with \<open>now - ts \<ge> time_period\<close>: the entries left
  are the others, in their order. The capacity check that follows counts only them,
  however many expired entries the ledger held.
\<close>

theorem prune_removes_exactly_expired:
  "\<exists>s1. prune s now = Inr s1
      \<and> s1 = s\<lparr>timestamps := [ts \<leftarrow> timestamps s. \<not> now - ts \<ge> time_period s * 1000000]\<rparr>
      \<and> reached_limit s1 =
          (limit s \<le> int (length [ts \<leftarrow> timestamps s. \<not> now - ts \<ge> time_period s * 1000000]))"
  by (simp add: prune_eq prune_list_def timedelta_seconds_def reached_limit_def not_le)

text \<open>
  A ledger of the cross-process mode with three expired entries, one of them exactly
  \<open>time_period\<close> old, and two live ones.
\<close>

theorem prune_removes_exactly_expired_witness:
  "prune \<lparr>limit = 3, time_period = 1, multiprocessing_mode = True,
          timestamps = [0, 2500000, 1000000, 2999999, 2000000]\<rparr> 3000000 =
     Inr \<lparr>limit = 3, time_period = 1, multiprocessing_mode = True,
          timestamps = [2500000, 2999999]\<rparr>
   \<and> \<not> reached_limit \<lparr>limit = 3, time_period = 1, multiprocessing_mode = True,
                       timestamps = [2500000, 2999999]\<rparr>"
  using prune_removes_exactly_expired
    [of "\<lparr>limit = 3, time_period = 1, multiprocessing_mode = True,
          timestamps = [0, 2500000, 1000000, 2999999, 2000000]\<rparr>" 3000000]
  by simp

subsection \<open>C5: no wait below the limit\<close>

text \<open>
  C5: when fewer than \<open>limit\<close> entries of the ledger are within \<open>time_period\<close> of the
  instant of the call, \<open>acquire\<close> returns without suspending: the world is unchanged
  (no sleep, no log line, the clock where it was) and the instant is appended to the
  pruned ledger.
\<close>

theorem acquire_no_wait_below_limit:
  assumes "int (length [ts \<leftarrow> timestamps s. clock w - ts < time_period s * 1000000]) < limit s"
  shows "acquire s w =
           Inr (s\<lparr>timestamps := [ts \<leftarrow> timestamps s. clock w - ts < time_period s * 1000000]
                                  @ [clock w]\<rparr>, w)"
  using assms
  by (simp add: acquire_eq prune_list_def timedelta_seconds_def reached_limit_def)

text \<open>
  A ledger at its limit of 2 whose two entries have expired by the time of the call.
\<close>

theorem acquire_no_wait_below_limit_witness:
  "acquire \<lparr>limit = 2, time_period = 1, multiprocessing_mode = False,
            timestamps = [0, 100000]\<rparr> \<lparr>clock = 1500000, trace = []\<rparr> =
     Inr (\<lparr>limit = 2, time_period = 1, multiprocessing_mode = False,
            timestamps = [1500000]\<rparr>, \<lparr>clock = 1500000, trace = []\<rparr>)"
proof -
  let ?s = "\<lparr>limit = 2, time_period = 1, multiprocessing_mode = False,
             timestamps = [0, 100000]\<rparr>"
  let ?w = "\<lparr>clock = 1500000, trace = []\<rparr>"
  have h: "int (length [ts \<leftarrow> timestamps ?s. clock ?w - ts < time_period ?s * 1000000])
             < limit ?s"
    by simp
  show ?thesis
    using acquire_no_wait_below_limit [OF h] by simp
qed

subsection \<open>C6: the timestamp recorded\<close>

text \<open>
  C6: every call of \<open>acquire\<close> returns, and the timestamp it appends, the last of the
  ledger, is the instant read at the start of the call. When the call returns the clock
  is that instant plus the time slept, so after a call that slept the timestamp recorded
  is earlier than the time of return.
\<close>

theorem acquire_records_start_instant:
  "\<exists>s' w'. acquire s w = Inr (s', w')
      \<and> timestamps s' =
          [ts \<leftarrow> timestamps s. clock w - ts < time_period s * 1000000] @ [clock w]
      \<and> last (timestamps s') = clock w
      \<and> clock w' = clock w + (slept w' - slept w)
      \<and> (slept w < slept w' \<longrightarrow> last (timestamps s') < clock w')"
proof -
  obtain s' w' where acq: "acquire s w = Inr (s', w')"
    using acquire_returns by blast
  have ledger: "timestamps s' =
      [ts \<leftarrow> timestamps s. clock w - ts < time_period s * 1000000] @ [clock w]"
    using acq by (auto simp add: acquire_eq Let_def prune_list_def timedelta_seconds_def)
  have time: "clock w' = clock w + (slept w' - slept w)"
    using acquire_clock_slept [OF acq] by simp
  have "last (timestamps s') = clock w"
    using ledger by simp
  with acq ledger time show ?thesis by auto
qed

text \<open>A call at 0.1 s that sleeps 0.9 s records 0.1 s and returns at 1.0 s.\<close>

theorem acquire_records_start_instant_witness:
  "acquire \<lparr>limit = 1, time_period = 1, multiprocessing_mode = False, timestamps = [0]\<rparr>
           \<lparr>clock = 100000, trace = []\<rparr> =
     Inr (\<lparr>limit = 1, time_period = 1, multiprocessing_mode = False,
            timestamps = [0, 100000]\<rparr>,
          \<lparr>clock = 1000000, trace = [LogDebug 900000, Sleep 900000]\<rparr>)
   \<and> slept \<lparr>clock = 100000, trace = []\<rparr>
       < slept \<lparr>clock = 1000000, trace = [LogDebug 900000, Sleep 900000]\<rparr>
   \<and> last [0, 100000 :: int] = 100000 \<and> last [0, 100000 :: int] < 1000000"
proof -
  let ?s = "\<lparr>limit = 1, time_period = 1, multiprocessing_mode = False, timestamps = [0]\<rparr>"
  let ?w = "\<lparr>clock = 100000, trace = []\<rparr>"
  let ?w' = "\<lparr>clock = 1000000, trace = [LogDebug 900000, Sleep 900000]\<rparr>"
  obtain s' w' where r: "acquire ?s ?w = Inr (s', w')"
    "last (timestamps s') = clock ?w"
    "slept ?w < slept w' \<longrightarrow> last (timestamps s') < clock w'"
    using acquire_records_start_instant [of ?s ?w] by blast
  have e: "acquire ?s ?w =
      Inr (\<lparr>limit = 1, time_period = 1, multiprocessing_mode = False,
             timestamps = [0, 100000]\<rparr>, ?w')"
    by (simp add: eval_defs)
  have "slept ?w < slept ?w'"
    by (simp add: slept_def)
  with r e show ?thesis
    by simp
qed

subsection \<open>C7: a call never fails\<close>




subsection \<open>C8: the two pruning procedures agree\<close>

text \<open>
  C8: for every ledger and every instant \<open>now\<close>, pruning by collecting the expired
  indices and popping them in reverse order never pops out of range and leaves the
  ledger that the filter of the single-process mode produces.
\<close>

theorem prune_modes_agree: "prune_manager now p xs = Inr (prune_list now p xs)"
  by (rule prune_manager_eq)

text \<open>Both procedures on a ledger that is not in ascending order.\<close>

theorem prune_modes_agree_witness:
  "prune_manager 3000000 1 [0, 2500000, 1000000, 2999999, 2000000] = Inr [2500000, 2999999]
   \<and> prune_list 3000000 1 [0, 2500000, 1000000, 2999999, 2000000] = [2500000, 2999999]"
  using prune_modes_agree [of 3000000 1 "[0, 2500000, 1000000, 2999999, 2000000]"]
  by (simp add: prune_list_def timedelta_seconds_def)

subsection \<open>C9: the ledger is in ascending order\<close>

text \<open>
  C9: with a clock that never goes back (every delay between calls is non-negative),
  the ledger stays ordered oldest first. From a ledger in ascending order whose entries
  are not later than the clock, which the empty ledger of a new limiter is, every
  sequence of calls returns and leaves a ledger in ascending order whose entries are
  not later than the clock, so that its entry at index 0, when there is one, is the
  earliest.
\<close>

theorem run_keeps_ledger_ordered:
  assumes "sorted (timestamps s)" and "\<forall>ts \<in> set (timestamps s). ts \<le> clock w"
    and "\<forall>d \<in> set ds. 0 \<le> d"
  shows "\<exists>s' w'. run ds s w = Inr (s', w')
           \<and> sorted (timestamps s')
           \<and> (\<forall>ts \<in> set (timestamps s'). ts \<le> clock w')
           \<and> (timestamps s' \<noteq> [] \<longrightarrow> hd (timestamps s') = Min (set (timestamps s')))"
  using assms
proof (induction ds arbitrary: s w)
  case Nil
  then show ?case by (simp add: sorted_hd_is_Min)
next
  case (Cons d ds)
  obtain s1 w1 where acq: "acquire s (tick d w) = Inr (s1, w1)"
    using acquire_returns by blast
  have "\<forall>ts \<in> set (timestamps s). ts \<le> clock (tick d w)"
    using Cons.prems(2,3) by (auto simp add: tick_def)
  then have "sorted (timestamps s1) \<and> (\<forall>ts \<in> set (timestamps s1). ts \<le> clock w1)"
    using acquire_keeps_order [OF Cons.prems(1) _ acq] by simp
  then show ?case
    using Cons.IH [of s1 w1] Cons.prems(3) acq by simp
qed

text \<open>Three calls on a new limiter, the second 0.1 s after the first has returned.\<close>

theorem run_keeps_ledger_ordered_witness:
  "run [0, 100000, 0]
     \<lparr>limit = 1, time_period = 1, multiprocessing_mode = False, timestamps = []\<rparr>
     \<lparr>clock = 0, trace = []\<rparr> =
     Inr (\<lparr>limit = 1, time_period = 1, multiprocessing_mode = False,
            timestamps = [100000, 1000000]\<rparr>,
          \<lparr>clock = 1100000,
             trace = [LogDebug 900000, Sleep 900000, LogDebug 100000, Sleep 100000]\<rparr>)
   \<and> sorted [100000, 1000000 :: int]
   \<and> hd [100000, 1000000 :: int] = Min (set [100000, 1000000])"
proof -
  let ?s = "\<lparr>limit = 1, time_period = 1, multiprocessing_mode = False, timestamps = []\<rparr>"
  let ?w = "\<lparr>clock = 0, trace = []\<rparr>"
  have h1: "sorted (timestamps ?s)" by simp
  have h2: "\<forall>ts \<in> set (timestamps ?s). ts \<le> clock ?w" by simp
  have h3: "\<forall>d \<in> set [0, 100000, 0 :: int]. 0 \<le> d" by simp
  obtain s' w' where r: "run [0, 100000, 0] ?s ?w = Inr (s', w')"
    "sorted (timestamps s')"
    "timestamps s' \<noteq> [] \<longrightarrow> hd (timestamps s') = Min (set (timestamps s'))"
    using run_keeps_ledger_ordered [OF h1 h2 h3] by blast
  have e: "run [0, 100000, 0] ?s ?w =
      Inr (\<lparr>limit = 1, time_period = 1, multiprocessing_mode = False,
             timestamps = [100000, 1000000]\<rparr>,
           \<lparr>clock = 1100000,
              trace = [LogDebug 900000, Sleep 900000, LogDebug 100000, Sleep 100000]\<rparr>)"
    by (simp add: eval_defs)
  have "timestamps s' = [100000, 1000000]"
    using r(1) e by simp
  with r e show ?thesis
    by simp
qed

subsection \<open>C10: no read out of bounds\<close>

text \<open>
  C10: \<open>acquire\<close> never raises \<open>IndexError\<close>, in either mode: the read of index 0
  is made only on a ledger that is not empty, and no \<open>pop\<close> is out of range. For a
  limiter whose \<open>limit\<close> is 0 or less, which the constructor accepts, a call that
  finds no live entry (so also a call on an empty ledger) has reached the limit, skips
  the wait, and returns at once with the world unchanged and its timestamp appended.
\<close>

theorem acquire_never_index_error:
  "acquire s w \<noteq> Inl IndexError
   \<and> (limit s \<le> 0 \<and> [ts \<leftarrow> timestamps s. clock w - ts < time_period s * 1000000] = [] \<longrightarrow>
        prune s (clock w) = Inr (s\<lparr>timestamps := []\<rparr>)
        \<and> reached_limit (s\<lparr>timestamps := []\<rparr>)
        \<and> wait_if_full (s\<lparr>timestamps := []\<rparr>) (clock w) w = Inr w
        \<and> acquire s w = Inr (s\<lparr>timestamps := [clock w]\<rparr>, w))"
  by (simp add: acquire_eq prune_eq wait_if_full_eq prune_list_def timedelta_seconds_def
      reached_limit_def Let_def)

text \<open>A new limiter with \<open>limit = 0\<close>, as the constructor returns it.\<close>

theorem acquire_never_index_error_witness:
  "acquire \<lparr>limit = 0, time_period = 1, multiprocessing_mode = False, timestamps = []\<rparr>
           \<lparr>clock = 5, trace = [LogInfo 0 1]\<rparr> \<noteq> Inl IndexError
   \<and> reached_limit \<lparr>limit = 0, time_period = 1, multiprocessing_mode = False, timestamps = []\<rparr>
   \<and> acquire \<lparr>limit = 0, time_period = 1, multiprocessing_mode = False, timestamps = []\<rparr>
             \<lparr>clock = 5, trace = [LogInfo 0 1]\<rparr> =
       Inr (\<lparr>limit = 0, time_period = 1, multiprocessing_mode = False, timestamps = [5]\<rparr>,
            \<lparr>clock = 5, trace = [LogInfo 0 1]\<rparr>)"
  using acquire_never_index_error
    [of "\<lparr>limit = 0, time_period = 1, multiprocessing_mode = False, timestamps = []\<rparr>"
        "\<lparr>clock = 5, trace = [LogInfo 0 1]\<rparr>"]
  by simp

end
